theory Spec2Isabelle
  imports Main "HOL-Library.List_Lexorder"
begin

section \<open>Values, props and the focus hook of index.tsx\<close>

text \<open>
  A shallow embedding of \<^verbatim>\<open>src/index.tsx\<close>: the hook \<^verbatim>\<open>useFocusInvalidField\<close>, the
  components \<^verbatim>\<open>BootstrapInput\<close> and \<^verbatim>\<open>BootstrapSelect\<close>, and the option tree renderer
  \<^verbatim>\<open>RenderOptions\<close>.  A function component is a function from its props (and what its
  hooks read) to the element tree it returns and the helper calls its effect makes.
\<close>

subsection \<open>JavaScript values and objects\<close>

datatype js_value =
    JUndefined
  | JNull
  | JBool bool
  | JString string
  | JNumber int
  | JOpaque nat

text \<open>
  An attribute object (\<^verbatim>\<open>inputProps\<close>, \<^verbatim>\<open>labelProps\<close>, the props of a rendered element):
  a key is absent, or present with a value, which may be \<^verbatim>\<open>undefined\<close>.
\<close>

type_synonym props = "string \<rightharpoonup> js_value"

text \<open>\<^verbatim>\<open>obj.key\<close>: an absent key reads as \<^verbatim>\<open>undefined\<close>.\<close>

definition get_prop :: "props \<Rightarrow> string \<Rightarrow> js_value" where
  "get_prop obj k = (case obj k of None \<Rightarrow> JUndefined | Some v \<Rightarrow> v)"

text \<open>\<^verbatim>\<open>obj?.key\<close> on an optional object.\<close>

definition get_prop_opt :: "props option \<Rightarrow> string \<Rightarrow> js_value" where
  "get_prop_opt obj k = (case obj of None \<Rightarrow> JUndefined | Some m \<Rightarrow> get_prop m k)"

text \<open>\<^verbatim>\<open>{...obj}\<close> of an optional object spreads nothing when it is \<^verbatim>\<open>undefined\<close>.\<close>

definition spread_opt :: "props option \<Rightarrow> props" where
  "spread_opt obj = (case obj of None \<Rightarrow> Map.empty | Some m \<Rightarrow> m)"

text \<open>\<^verbatim>\<open>a ?? b\<close>.\<close>

definition nullish :: "js_value \<Rightarrow> bool" where
  "nullish v = (v = JUndefined \<or> v = JNull)"

definition nullish_coalesce :: "js_value \<Rightarrow> js_value \<Rightarrow> js_value" where
  "nullish_coalesce a b = (if nullish a then b else a)"

subsection \<open>The focus hook: \<^verbatim>\<open>useFocusInvalidField\<close>\<close>

text \<open>A DOM element is known by its identity.\<close>

type_synonym element = nat

text \<open>
  The part of Formik's context the hook reads.  \<^verbatim>\<open>errors\<close> is an object: \<open>errors_id\<close> is its
  identity (what \<^verbatim>\<open>Object.is\<close> compares in the dependency array) and \<open>errors_entries\<close> its own
  enumerable properties in the order \<^verbatim>\<open>Object.keys\<close> lists them.
\<close>

record formik_errors =
  errors_id :: nat
  errors_entries :: "(string \<times> js_value) list"

record formik_context =
  isSubmitting :: bool
  errors :: formik_errors

text \<open>
  What the two refs returned by the hook hold when the effect runs: \<open>None\<close> is \<^verbatim>\<open>null\<close>
  (nothing mounted under the ref).
\<close>

record refs =
  fieldRef :: "element option"
  containerElementRef :: "element option"

text \<open>
  One invocation of \<^verbatim>\<open>focusAndScrollIntoViewIfRequired(focusTarget, scrollTarget, smoothScroll)\<close>
  of oaf-side-effects.  Both targets are elements: the call cannot be built from a \<^verbatim>\<open>null\<close> ref.
\<close>

datatype helper_call =
  HelperCall (focus_arg: element) (scroll_arg: element) (smooth_arg: bool)

text \<open>\<^verbatim>\<open>Object.keys(formikContext.errors)[0]\<close>: \<open>None\<close> is \<^verbatim>\<open>undefined\<close> (no key).\<close>

definition firstError :: "formik_context \<Rightarrow> string option" where
  "firstError ctx =
     (case map fst (errors_entries (errors ctx)) of [] \<Rightarrow> None | k # _ \<Rightarrow> Some k)"

text \<open>
  The body of the effect (lines 77-93).  \<open>wasSubmitting\<close> is what \<^verbatim>\<open>usePrevious\<close> returned in
  this render (\<open>None\<close> is \<^verbatim>\<open>undefined\<close>).  The result is the list of helper calls made.  With
  \<^verbatim>\<open>errors\<close> an object, as its type says, no statement of the body throws, and the helper's
  promise is not awaited: the body has no error branch.
\<close>

definition focus_effect ::
  "string \<Rightarrow> bool \<Rightarrow> formik_context \<Rightarrow> bool option \<Rightarrow> refs \<Rightarrow> helper_call list" where
  "focus_effect name smoothScroll formikContext wasSubmitting r =
     (if wasSubmitting = Some True \<and>
         \<not> isSubmitting formikContext \<and>
         firstError formikContext = Some name \<and>
         fieldRef r \<noteq> None
      then (case fieldRef r of
              None \<Rightarrow> []
            | Some field \<Rightarrow>
                [HelperCall
                   field
                   (case containerElementRef r of None \<Rightarrow> field | Some container \<Rightarrow> container)
                   smoothScroll])
      else [])"

text \<open>
  Modelled from the spec: \<^verbatim>\<open>usePrevious\<close> is imported from ahooks and is not under src.  The
  spec (sections 3 and 4.1) has the hook compare the current value with the immediately prior
  one, once per render: in each render it returns the value it was given in the previous render
  (\<^verbatim>\<open>undefined\<close> in the first) and remembers the present one.  The first component of the result
  is the returned value, the second what is remembered.
\<close>

definition usePrevious :: "bool option \<Rightarrow> bool \<Rightarrow> bool option \<times> bool option" where
  "usePrevious remembered state = (remembered, Some state)"

text \<open>
  The dependency array of the effect (lines 94-100).  The error object is compared by identity.
\<close>

record effect_deps =
  dep_wasSubmitting :: "bool option"
  dep_isSubmitting :: bool
  dep_name :: string
  dep_errors :: nat
  dep_smoothScroll :: bool

text \<open>
  Modelled from the spec: \<^verbatim>\<open>useEffect\<close> is React's and is not under src.  The spec (section 4.1)
  has the watcher re-evaluate after every change to a dependency; the effect also runs after
  the first render, when there is no earlier dependency array.
\<close>

definition deps_changed :: "effect_deps option \<Rightarrow> effect_deps \<Rightarrow> bool" where
  "deps_changed old new = (case old of None \<Rightarrow> True | Some d \<Rightarrow> d \<noteq> new)"

text \<open>What the hook keeps between renders of one component instance.\<close>

record hook_state =
  remembered :: "bool option"
  last_deps :: "effect_deps option"

definition mounted :: hook_state where
  "mounted = \<lparr>remembered = None, last_deps = None\<rparr>"

text \<open>
  One render of the hook (lines 53-102).  The second argument is optional and defaults to
  \<^verbatim>\<open>false\<close>.  The result is the helper calls made by the effect after this render, and the state
  kept for the next render.
\<close>

definition useFocusInvalidField ::
  "string \<Rightarrow> bool option \<Rightarrow> formik_context \<Rightarrow> refs \<Rightarrow> hook_state \<Rightarrow>
     helper_call list \<times> hook_state" where
  "useFocusInvalidField name smoothScrollArg formikContext r st =
     (let smoothScroll = (case smoothScrollArg of None \<Rightarrow> False | Some b \<Rightarrow> b);
          (wasSubmitting, kept) = usePrevious (remembered st) (isSubmitting formikContext);
          deps = \<lparr>dep_wasSubmitting = wasSubmitting,
                  dep_isSubmitting = isSubmitting formikContext,
                  dep_name = name,
                  dep_errors = errors_id (errors formikContext),
                  dep_smoothScroll = smoothScroll\<rparr>
      in (if deps_changed (last_deps st) deps
          then focus_effect name smoothScroll formikContext wasSubmitting r
          else [],
          \<lparr>remembered = kept, last_deps = Some deps\<rparr>))"

text \<open>A render of a component that uses the hook: the arguments and what the hook reads.\<close>

record render =
  r_name :: string
  r_smoothScroll :: "bool option"
  r_context :: formik_context
  r_refs :: refs

definition hook_render :: "hook_state \<Rightarrow> render \<Rightarrow> helper_call list \<times> hook_state" where
  "hook_render st rd =
     useFocusInvalidField (r_name rd) (r_smoothScroll rd) (r_context rd) (r_refs rd) st"

text \<open>The state after a sequence of renders, and the calls each of them made.\<close>

fun state_after :: "hook_state \<Rightarrow> render list \<Rightarrow> hook_state" where
  "state_after st [] = st"
| "state_after st (rd # rds) = state_after (snd (hook_render st rd)) rds"

fun calls_of :: "hook_state \<Rightarrow> render list \<Rightarrow> helper_call list list" where
  "calls_of st [] = []"
| "calls_of st (rd # rds) = fst (hook_render st rd) # calls_of (snd (hook_render st rd)) rds"

subsection \<open>What the helper does\<close>

datatype dom_action = Focus element | ScrollIntoView element bool

record browser =
  fullyVisible :: "element \<Rightarrow> bool"
  prefersReducedMotion :: bool

text \<open>
  Modelled from the spec: \<^verbatim>\<open>focusAndScrollIntoViewIfRequired\<close> is imported from
  oaf-side-effects and is not under src.  The spec (section 4.1) has it move keyboard focus to
  the focus target, scroll the scroll target into view only if it is not already fully
  visible, and scroll instantly when the user prefers reduced motion.
\<close>

definition focusAndScrollIntoViewIfRequired ::
  "browser \<Rightarrow> element \<Rightarrow> element \<Rightarrow> bool \<Rightarrow> dom_action list" where
  "focusAndScrollIntoViewIfRequired b focusTarget scrollTarget smoothScroll =
     Focus focusTarget #
     (if fullyVisible b scrollTarget then []
      else [ScrollIntoView scrollTarget (smoothScroll \<and> \<not> prefersReducedMotion b)])"

fun perform :: "browser \<Rightarrow> helper_call \<Rightarrow> dom_action list" where
  "perform b (HelperCall f s sm) = focusAndScrollIntoViewIfRequired b f s sm"

fun is_focus :: "dom_action \<Rightarrow> bool" where
  "is_focus (Focus _) = True"
| "is_focus (ScrollIntoView _ _) = False"

fun is_scroll :: "dom_action \<Rightarrow> bool" where
  "is_scroll (Focus _) = False"
| "is_scroll (ScrollIntoView _ _) = True"

section \<open>Element trees and the components\<close>

subsection \<open>What a component returns\<close>

datatype Key = KeyString string | KeyNumber int

text \<open>The two ref objects of the hook, as the value of a \<^verbatim>\<open>ref\<close> attribute.\<close>

datatype ref_handle = Ref_fieldRef | Ref_containerElementRef

text \<open>
  A React node: a host element (tag, key, ref, props, children), a fragment, a string, an
  element supplied by the caller (opaque to this library), \<^verbatim>\<open>undefined\<close> (renders nothing), or
  Formik's \<^verbatim>\<open>ErrorMessage\<close> with its name and render function.
\<close>

datatype vnode =
    Elem string "Key option" "ref_handle option" props "vnode list"
  | Fragment "vnode list"
  | Text string
  | Foreign nat
  | Nothing
  | ErrorMessage string "string \<Rightarrow> vnode"

fun node_type :: "vnode \<Rightarrow> string" where
  "node_type (Elem t _ _ _ _) = t"
| "node_type (Fragment _) = ''Fragment''"
| "node_type (Text _) = ''#text''"
| "node_type (Foreign _) = ''#foreign''"
| "node_type Nothing = ''#undefined''"
| "node_type (ErrorMessage _ _) = ''ErrorMessage''"

fun ref_of :: "vnode \<Rightarrow> ref_handle option" where
  "ref_of (Elem _ _ r _ _) = r"
| "ref_of _ = None"

fun attrs_of :: "vnode \<Rightarrow> props" where
  "attrs_of (Elem _ _ _ a _) = a"
| "attrs_of _ = Map.empty"

fun children_of :: "vnode \<Rightarrow> vnode list" where
  "children_of (Elem _ _ _ _ cs) = cs"
| "children_of (Fragment cs) = cs"
| "children_of _ = []"

text \<open>The children React renders: \<^verbatim>\<open>undefined\<close> children are skipped.\<close>

definition rendered_children :: "vnode \<Rightarrow> vnode list" where
  "rendered_children v = filter (\<lambda>c. c \<noteq> Nothing) (children_of v)"

text \<open>The host elements of a tree in document order (an element before its descendants).\<close>

primrec elements :: "vnode \<Rightarrow> vnode list" where
  "elements (Elem t k r a cs) = Elem t k r a cs # concat (map elements cs)"
| "elements (Fragment cs) = concat (map elements cs)"
| "elements (Text s) = []"
| "elements (Foreign n) = []"
| "elements Nothing = []"
| "elements (ErrorMessage n f) = []"

text \<open>The element a ref object is attached to, and an attribute of it.\<close>

definition element_with_ref :: "ref_handle \<Rightarrow> vnode \<Rightarrow> vnode option" where
  "element_with_ref h v = List.find (\<lambda>e. ref_of e = Some h) (elements v)"

definition ref_attr :: "ref_handle \<Rightarrow> vnode \<Rightarrow> string \<Rightarrow> js_value option" where
  "ref_attr h v k = map_option (\<lambda>e. get_prop (attrs_of e) k) (element_with_ref h v)"

subsection \<open>\<^verbatim>\<open>BootstrapErrorMessage\<close> (lines 110-121)\<close>

definition BootstrapErrorMessage :: "string \<Rightarrow> string \<Rightarrow> vnode" where
  "BootstrapErrorMessage name ident =
     ErrorMessage name
       (\<lambda>errorMessage.
          Elem ''div'' None None
            [''className'' \<mapsto> JString ''invalid-feedback'', ''id'' \<mapsto> JString ident]
            [Text errorMessage])"

fun is_error_message :: "vnode \<Rightarrow> bool" where
  "is_error_message (ErrorMessage _ _) = True"
| "is_error_message _ = False"

subsection \<open>Option trees: \<^verbatim>\<open>isSelectOption\<close> and \<^verbatim>\<open>RenderOptions\<close> (lines 193-244)\<close>

text \<open>
  \<^verbatim>\<open>SelectOption | SelectOptionGroup\<close> carries no tag: a node is an object in which each of
  \<^verbatim>\<open>value\<close>, \<^verbatim>\<open>label\<close>, \<^verbatim>\<open>disabled\<close> and \<^verbatim>\<open>key\<close> may be \<^verbatim>\<open>undefined\<close>.  By the two declared types a node
  that is not a \<^verbatim>\<open>SelectOption\<close> has an \<^verbatim>\<open>options\<close> array, so \<open>opt_options\<close> is a list (empty in a
  plain option, whose \<^verbatim>\<open>options\<close> is never read).
\<close>

datatype SelectOptionOrGroup =
  OptionNode
    (opt_value: "string option")
    (opt_label: "string option")
    (opt_disabled: "bool option")
    (opt_key: "Key option")
    (opt_options: "SelectOptionOrGroup list")

definition isSelectOption :: "SelectOptionOrGroup \<Rightarrow> bool" where
  "isSelectOption o' = (opt_label o' \<noteq> None \<and> opt_value o' \<noteq> None)"

text \<open>An optional string or boolean as an attribute value or a child.\<close>

definition js_string :: "string option \<Rightarrow> js_value" where
  "js_string s = (case s of None \<Rightarrow> JUndefined | Some x \<Rightarrow> JString x)"

definition js_bool :: "bool option \<Rightarrow> js_value" where
  "js_bool b = (case b of None \<Rightarrow> JUndefined | Some x \<Rightarrow> JBool x)"

definition text_child :: "string option \<Rightarrow> vnode" where
  "text_child s = (case s of None \<Rightarrow> Nothing | Some x \<Rightarrow> Text x)"

text \<open>
  \<open>render_option\<close> is the callback of \<^verbatim>\<open>options.map\<close> (lines 232-242); the nested
  \<^verbatim>\<open><RenderOptions options={o.options} />\<close> is the same function on the group's children.
\<close>

primrec render_option :: "SelectOptionOrGroup \<Rightarrow> vnode" where
  "render_option (OptionNode v l d k os) =
     (if isSelectOption (OptionNode v l d k os)
      then Elem ''option'' k None
             [''value'' \<mapsto> js_string v, ''disabled'' \<mapsto> js_bool d]
             [text_child l]
      else Elem ''optgroup'' k None
             [''label'' \<mapsto> js_string l, ''disabled'' \<mapsto> js_bool d]
             [Fragment (map render_option os)])"

definition RenderOptions :: "SelectOptionOrGroup list \<Rightarrow> vnode" where
  "RenderOptions options = Fragment (map render_option options)"

subsection \<open>Positions in an option tree\<close>

text \<open>
  The depth-first pre-order of an option tree, in the spec's words: the nodes of an array in
  array order, each group followed by the pre-order of its children.  The \<^verbatim>\<open>options\<close> of a node
  that counts as an option are not part of the tree.
\<close>

primrec preorder :: "SelectOptionOrGroup \<Rightarrow> SelectOptionOrGroup list"
  and preorder_all :: "SelectOptionOrGroup list \<Rightarrow> SelectOptionOrGroup list" where
  "preorder (OptionNode v l d k os) =
     OptionNode v l d k os #
     (if isSelectOption (OptionNode v l d k os) then [] else preorder_all os)"
| "preorder_all [] = []"
| "preorder_all (n # ns) = preorder n @ preorder_all ns"

text \<open>
  A node is known by its position: the indices that lead to it from the top-level array.
  \<open>node_at\<close> reads the node at a position; \<open>reachable\<close> says that a position is a node of the
  tree: every index is in range and every node passed on the way is a group.
\<close>

fun node_at :: "SelectOptionOrGroup list \<Rightarrow> nat list \<Rightarrow> SelectOptionOrGroup option" where
  "node_at os [] = None"
| "node_at os [i] = (if i < length os then Some (os ! i) else None)"
| "node_at os (i # j # p) =
     (if i < length os then node_at (opt_options (os ! i)) (j # p) else None)"

fun reachable :: "SelectOptionOrGroup list \<Rightarrow> nat list \<Rightarrow> bool" where
  "reachable os [] = False"
| "reachable os [i] = (i < length os)"
| "reachable os (i # j # p) =
     (i < length os \<and> \<not> isSelectOption (os ! i) \<and> reachable (opt_options (os ! i)) (j # p))"

text \<open>
  The positions in the order the renderer reaches them: \<open>below n\<close> are the positions under a
  node relative to it (\<open>[]\<close> is the node itself), \<open>option_paths\<close> those of an array.
\<close>

fun shift :: "nat list \<Rightarrow> nat list" where
  "shift [] = []"
| "shift (i # p) = Suc i # p"

primrec below :: "SelectOptionOrGroup \<Rightarrow> nat list list"
  and option_paths :: "SelectOptionOrGroup list \<Rightarrow> nat list list" where
  "below (OptionNode v l d k os) =
     [] # (if isSelectOption (OptionNode v l d k os) then [] else option_paths os)"
| "option_paths [] = []"
| "option_paths (n # ns) = map ((#) 0) (below n) @ map shift (option_paths ns)"

subsection \<open>Props of the field components\<close>

text \<open>
  Formik's \<^verbatim>\<open>FieldProps\<close>, as far as the components read it: \<^verbatim>\<open>field\<close> (spread onto the
  element), \<^verbatim>\<open>meta.error\<close> and \<^verbatim>\<open>form.submitCount\<close>.  Handlers are opaque values.
\<close>

record FieldInputProps =
  field_name :: string
  field_value :: js_value
  field_multiple :: "bool option"
  field_checked :: "bool option"
  field_onChange :: js_value
  field_onBlur :: js_value

record FieldMetaProps =
  meta_error :: "string option"

record FormikProps =
  form_submitCount :: nat

record FieldProps =
  field :: FieldInputProps
  meta :: FieldMetaProps
  form :: FormikProps

text \<open>\<^verbatim>\<open>label: string | JSX.Element\<close>.\<close>

datatype label_content = LabelString string | LabelElement nat

fun label_child :: "label_content \<Rightarrow> vnode" where
  "label_child (LabelString s) = Text s"
| "label_child (LabelElement n) = Foreign n"

record InputProps =
  fieldProps :: FieldProps
  label :: label_content
  labelProps :: "props option"
  inputProps :: "props option"

record BootstrapOptions =
  floatingLabel :: "bool option"

record SelectProps = InputProps +
  options :: "SelectOptionOrGroup list option"
  bootstrapOptions :: "BootstrapOptions option"

text \<open>\<^verbatim>\<open>{...props.fieldProps.field}\<close>: the optional members are keys only when they are set.\<close>

definition spread_field :: "FieldInputProps \<Rightarrow> props" where
  "spread_field f =
     [''name'' \<mapsto> JString (field_name f),
      ''value'' \<mapsto> field_value f,
      ''onChange'' \<mapsto> field_onChange f,
      ''onBlur'' \<mapsto> field_onBlur f]
     ++ (case field_multiple f of None \<Rightarrow> Map.empty | Some b \<Rightarrow> [''multiple'' \<mapsto> JBool b])
     ++ (case field_checked f of None \<Rightarrow> Map.empty | Some b \<Rightarrow> [''checked'' \<mapsto> JBool b])"

text \<open>
  The constants both components compute in the same words (lines 146-160 and 274-285).
  \<open>field_id\<close> is \<^verbatim>\<open>props.inputProps?.id ?? name\<close>; the declared type of \<^verbatim>\<open>id\<close> is
  \<^verbatim>\<open>string | undefined\<close>.
\<close>

definition field_id :: "'a InputProps_scheme \<Rightarrow> string" where
  "field_id props =
     (case get_prop_opt (inputProps props) ''id'' of
        JString s \<Rightarrow> s
      | _ \<Rightarrow> field_name (field (fieldProps props)))"

definition isInvalid :: "'a InputProps_scheme \<Rightarrow> bool" where
  "isInvalid props = (meta_error (meta (fieldProps props)) \<noteq> None)"

definition isSubmitted :: "'a InputProps_scheme \<Rightarrow> bool" where
  "isSubmitted props = (form_submitCount (form (fieldProps props)) > 0)"

definition invalidFeedbackId :: "'a InputProps_scheme \<Rightarrow> string" where
  "invalidFeedbackId props = field_id props @ ''-feedback''"

definition validationClass :: "'a InputProps_scheme \<Rightarrow> string" where
  "validationClass props =
     (if isSubmitted props
      then (if isInvalid props then '' is-invalid'' else '' is-valid'')
      else [])"

definition isCheckboxOrRadio :: "InputProps \<Rightarrow> bool" where
  "isCheckboxOrRadio props =
     (get_prop_opt (inputProps props) ''type'' = JString ''checkbox'' \<or>
      get_prop_opt (inputProps props) ''type'' = JString ''radio'')"

definition isFloatingLabel :: "SelectProps \<Rightarrow> bool" where
  "isFloatingLabel props =
     (case bootstrapOptions props of
        None \<Rightarrow> False
      | Some bo \<Rightarrow> (case floatingLabel bo of None \<Rightarrow> False | Some b \<Rightarrow> b))"

text \<open>One render of a component: the tree it returns, and the hook's calls and state.\<close>

record rendering =
  view :: vnode
  effect_calls :: "helper_call list"
  hook :: hook_state

subsection \<open>\<^verbatim>\<open>BootstrapInput\<close> (lines 136-191)\<close>

text \<open>
  In JSX a later attribute wins: the two spreads come after \<^verbatim>\<open>className\<close> and before \<^verbatim>\<open>id\<close>,
  \<^verbatim>\<open>value\<close>, \<^verbatim>\<open>aria-invalid\<close> and \<^verbatim>\<open>aria-describedby\<close>.
\<close>

definition BootstrapInput ::
  "InputProps \<Rightarrow> formik_context \<Rightarrow> refs \<Rightarrow> hook_state \<Rightarrow> rendering" where
  "BootstrapInput props formikContext r st =
     (let name = field_name (field (fieldProps props));
          (calls, st') = useFocusInvalidField name None formikContext r st
      in \<lparr>view =
            Fragment
              [Elem ''label'' None (Some Ref_containerElementRef)
                 (([''className'' \<mapsto>
                      JString (if isCheckboxOrRadio props
                               then ''form-check-label'' else ''form-label'')]
                   ++ spread_opt (labelProps props))
                  (''htmlFor'' \<mapsto> JString (field_id props)))
                 [label_child (label props)],
               Elem ''input'' None (Some Ref_fieldRef)
                 (([''className'' \<mapsto>
                      JString ((if isCheckboxOrRadio props
                                then ''form-check-input'' else ''form-control'')
                               @ validationClass props)]
                   ++ spread_field (field (fieldProps props))
                   ++ spread_opt (inputProps props))
                  (''id'' \<mapsto> JString (field_id props),
                   ''value'' \<mapsto>
                      nullish_coalesce (field_value (field (fieldProps props))) (JString []),
                   ''aria-invalid'' \<mapsto> JBool (isInvalid props),
                   ''aria-describedby'' \<mapsto>
                      (if isInvalid props then JString (invalidFeedbackId props)
                       else JUndefined)))
                 [],
               BootstrapErrorMessage name (invalidFeedbackId props)],
          effect_calls = calls,
          hook = st'\<rparr>)"

subsection \<open>\<^verbatim>\<open>BootstrapSelect\<close> (lines 264-323)\<close>

text \<open>The constant \<^verbatim>\<open>label\<close> of lines 289-293.\<close>

definition select_label :: "SelectProps \<Rightarrow> vnode" where
  "select_label props =
     Elem ''label'' None None
       (([''className'' \<mapsto> JString ''form-label''] ++ spread_opt (labelProps props))
        (''htmlFor'' \<mapsto> JString (field_id props)))
       [label_child (label props)]"

definition BootstrapSelect ::
  "SelectProps \<Rightarrow> formik_context \<Rightarrow> refs \<Rightarrow> hook_state \<Rightarrow> rendering" where
  "BootstrapSelect props formikContext r st =
     (let name = field_name (field (fieldProps props));
          (calls, st') = useFocusInvalidField name None formikContext r st
      in \<lparr>view =
            Elem ''div'' None (Some Ref_containerElementRef)
              [''className'' \<mapsto>
                 (if isFloatingLabel props then JString ''form-floating'' else JUndefined)]
              [if \<not> isFloatingLabel props then select_label props else Nothing,
               Elem ''select'' None (Some Ref_fieldRef)
                 (([''className'' \<mapsto> JString (''form-select'' @ validationClass props)]
                   ++ spread_field (field (fieldProps props))
                   ++ spread_opt (inputProps props))
                  (''id'' \<mapsto> JString (field_id props),
                   ''value'' \<mapsto>
                      nullish_coalesce (field_value (field (fieldProps props))) (JString []),
                   ''aria-invalid'' \<mapsto> JBool (isInvalid props),
                   ''aria-describedby'' \<mapsto>
                      (if isInvalid props then JString (invalidFeedbackId props)
                       else JUndefined)))
                 [RenderOptions (case options props of None \<Rightarrow> [] | Some os \<Rightarrow> os)],
               if isFloatingLabel props then select_label props else Nothing,
               if isInvalid props
               then BootstrapErrorMessage name (invalidFeedbackId props)
               else Nothing],
          effect_calls = calls,
          hook = st'\<rparr>)"

section \<open>Example inputs\<close>

text \<open>
  The scenario of the spec's section 8: the field \<^verbatim>\<open>email\<close> fails validation with
  \<^verbatim>\<open>Required\<close> in the first submission.  The input element is element 1, its label element 2.
\<close>

definition ex_submitting :: formik_context where
  "ex_submitting = \<lparr>isSubmitting = True, errors = \<lparr>errors_id = 6, errors_entries = []\<rparr>\<rparr>"

definition ex_failed :: formik_context where
  "ex_failed =
     \<lparr>isSubmitting = False,
      errors = \<lparr>errors_id = 7,
                errors_entries = [(''email'', JString ''Required''), (''age'', JString ''Too low'')]\<rparr>\<rparr>"

text \<open>The same errors in a new object, as after a validation on blur.\<close>

definition ex_revalidated :: formik_context where
  "ex_revalidated =
     \<lparr>isSubmitting = False,
      errors = \<lparr>errors_id = 8,
                errors_entries = [(''email'', JString ''Required''), (''age'', JString ''Too low'')]\<rparr>\<rparr>"

definition ex_refs :: refs where
  "ex_refs = \<lparr>fieldRef = Some 1, containerElementRef = Some 2\<rparr>"

definition ex_unmounted :: refs where
  "ex_unmounted = \<lparr>fieldRef = None, containerElementRef = None\<rparr>"

definition ex_render :: "formik_context \<Rightarrow> render" where
  "ex_render ctx =
     \<lparr>r_name = ''email'', r_smoothScroll = None, r_context = ctx, r_refs = ex_refs\<rparr>"

definition ex_browser :: browser where
  "ex_browser = \<lparr>fullyVisible = (\<lambda>e. False), prefersReducedMotion = False\<rparr>"

definition ex_field_props :: FieldProps where
  "ex_field_props =
     \<lparr>field = \<lparr>field_name = ''email'', field_value = JUndefined, field_multiple = None,
               field_checked = None, field_onChange = JOpaque 0, field_onBlur = JOpaque 1\<rparr>,
      meta = \<lparr>meta_error = Some ''Required''\<rparr>,
      form = \<lparr>form_submitCount = 1\<rparr>\<rparr>"

definition ex_input :: InputProps where
  "ex_input =
     \<lparr>fieldProps = ex_field_props, label = LabelString ''Email'',
      labelProps = None, inputProps = None\<rparr>"

text \<open>The same field, with a caller who passes a \<^verbatim>\<open>className\<close> in \<^verbatim>\<open>inputProps\<close>.\<close>

definition ex_input_custom :: InputProps where
  "ex_input_custom = ex_input\<lparr>inputProps := Some [''className'' \<mapsto> JString ''custom'']\<rparr>"

definition ex_select :: SelectProps where
  "ex_select =
     \<lparr>fieldProps = ex_field_props, label = LabelString ''Email'',
      labelProps = None, inputProps = None,
      options = None, bootstrapOptions = Some \<lparr>floatingLabel = Some True\<rparr>\<rparr>"

text \<open>
  An option tree: an option, a group holding an option, an empty group and an option, and a
  last option.
\<close>

definition ex_leaf :: "string \<Rightarrow> SelectOptionOrGroup" where
  "ex_leaf s = OptionNode (Some s) (Some s) None None []"

definition ex_options :: "SelectOptionOrGroup list" where
  "ex_options =
     [ex_leaf ''a'',
      OptionNode None (Some ''G'') None None
        [ex_leaf ''b'', OptionNode None None None None [], ex_leaf ''c''],
      ex_leaf ''d'']"

section \<open>The focus hook fires on the four conditions\<close>

lemma focus_effect_None:
  "fieldRef r = None \<Longrightarrow> focus_effect name sm ctx w r = []"
  by (simp add: focus_effect_def)

lemma focus_effect_Some:
  "fieldRef r = Some f \<Longrightarrow>
   focus_effect name sm ctx w r =
     (if w = Some True \<and> \<not> isSubmitting ctx \<and> firstError ctx = Some name
      then [HelperCall f (case containerElementRef r of None \<Rightarrow> f | Some k \<Rightarrow> k) sm]
      else [])"
  by (simp add: focus_effect_def)

text \<open>
  The body of the effect makes a call exactly when the four conditions of its guard hold, for
  whatever value \<^verbatim>\<open>usePrevious\<close> returned.
\<close>

lemma focus_effect_fires_iff:
  "(focus_effect name smoothScroll ctx wasSubmitting r \<noteq> []) =
     (wasSubmitting = Some True \<and> \<not> isSubmitting ctx \<and>
      firstError ctx = Some name \<and> fieldRef r \<noteq> None)"
  by (auto simp: focus_effect_def split: option.splits)

lemma useFocusInvalidField_fst:
  "fst (useFocusInvalidField name sm ctx r st) =
     (if deps_changed (last_deps st)
           \<lparr>dep_wasSubmitting = remembered st,
            dep_isSubmitting = isSubmitting ctx,
            dep_name = name,
            dep_errors = errors_id (errors ctx),
            dep_smoothScroll = (case sm of None \<Rightarrow> False | Some b \<Rightarrow> b)\<rparr>
      then focus_effect name (case sm of None \<Rightarrow> False | Some b \<Rightarrow> b) ctx (remembered st) r
      else [])"
  by (simp add: useFocusInvalidField_def usePrevious_def Let_def)

lemma useFocusInvalidField_snd:
  "snd (useFocusInvalidField name sm ctx r st) =
     \<lparr>remembered = Some (isSubmitting ctx),
      last_deps = Some \<lparr>dep_wasSubmitting = remembered st,
            dep_isSubmitting = isSubmitting ctx,
            dep_name = name,
            dep_errors = errors_id (errors ctx),
            dep_smoothScroll = (case sm of None \<Rightarrow> False | Some b \<Rightarrow> b)\<rparr>\<rparr>"
  by (simp add: useFocusInvalidField_def usePrevious_def Let_def)

lemma focus_effect_member:
  assumes "c \<in> set (focus_effect name sm ctx w r)"
  shows "fieldRef r = Some (focus_arg c) \<and>
     scroll_arg c = (case containerElementRef r of None \<Rightarrow> focus_arg c | Some k \<Rightarrow> k) \<and>
     smooth_arg c = sm"
proof (cases "fieldRef r")
  case None
  with assms show ?thesis by (simp add: focus_effect_None)
next
  case (Some f)
  with assms have "c = HelperCall f (case containerElementRef r of None \<Rightarrow> f | Some k \<Rightarrow> k) sm"
    by (simp add: focus_effect_Some split: if_splits)
  with Some show ?thesis by (simp split: option.splits)
qed

lemma hook_member:
  assumes "c \<in> set (fst (useFocusInvalidField name sm ctx r st))"
  shows "fieldRef r = Some (focus_arg c) \<and>
     scroll_arg c = (case containerElementRef r of None \<Rightarrow> focus_arg c | Some k \<Rightarrow> k) \<and>
     smooth_arg c = (case sm of None \<Rightarrow> False | Some b \<Rightarrow> b)"
proof -
  from assms have "c \<in> set (focus_effect name (case sm of None \<Rightarrow> False | Some b \<Rightarrow> b) ctx
      (remembered st) r)"
    by (simp add: useFocusInvalidField_fst split: if_splits)
  then show ?thesis by (rule focus_effect_member)
qed

lemma hook_render_fst:
  "fst (hook_render st rd) =
     fst (useFocusInvalidField (r_name rd) (r_smoothScroll rd) (r_context rd) (r_refs rd) st)"
  by (simp add: hook_render_def)

lemma hook_render_remembered:
  "remembered (snd (hook_render st rd)) = Some (isSubmitting (r_context rd))"
  by (simp add: hook_render_def useFocusInvalidField_snd)

lemma hook_render_last_deps:
  "\<exists>d. last_deps (snd (hook_render st rd)) = Some d \<and>
       dep_isSubmitting d = isSubmitting (r_context rd)"
  by (simp add: hook_render_def useFocusInvalidField_snd)

text \<open>The render in which the submitting flag falls makes the call.\<close>

lemma falling_edge_fires:
  assumes "isSubmitting (r_context r0)" "\<not> isSubmitting (r_context r1)"
    "firstError (r_context r1) = Some (r_name r1)" "fieldRef (r_refs r1) = Some f"
  shows "fst (hook_render (snd (hook_render st r0)) r1) =
     [HelperCall f (case containerElementRef (r_refs r1) of None \<Rightarrow> f | Some c \<Rightarrow> c)
        (case r_smoothScroll r1 of None \<Rightarrow> False | Some b \<Rightarrow> b)]"
proof -
  obtain d where d: "last_deps (snd (hook_render st r0)) = Some d"
    "dep_isSubmitting d = isSubmitting (r_context r0)"
    using hook_render_last_deps by blast
  have changed: "deps_changed (last_deps (snd (hook_render st r0)))
       \<lparr>dep_wasSubmitting = remembered (snd (hook_render st r0)),
        dep_isSubmitting = isSubmitting (r_context r1),
        dep_name = r_name r1,
        dep_errors = errors_id (errors (r_context r1)),
        dep_smoothScroll = (case r_smoothScroll r1 of None \<Rightarrow> False | Some b \<Rightarrow> b)\<rparr>"
    using d assms(1,2) by (auto simp: deps_changed_def)
  show ?thesis
    using changed assms
    by (simp add: hook_render_fst useFocusInvalidField_fst hook_render_remembered
        focus_effect_Some)
qed

text \<open>
  A render makes a call exactly when the submitting flag fell since the render before it, the
  field is the first error and the focus target is mounted; the first render makes none.
\<close>

lemma first_render_quiet: "fst (hook_render mounted rd) = []"
  by (simp add: hook_render_fst useFocusInvalidField_fst mounted_def focus_effect_def)

lemma render_fires_iff:
  "(fst (hook_render (snd (hook_render st r0)) r1) \<noteq> []) =
     (isSubmitting (r_context r0) \<and> \<not> isSubmitting (r_context r1) \<and>
      firstError (r_context r1) = Some (r_name r1) \<and> fieldRef (r_refs r1) \<noteq> None)"
proof (cases "isSubmitting (r_context r0) \<and> \<not> isSubmitting (r_context r1) \<and>
      firstError (r_context r1) = Some (r_name r1) \<and> fieldRef (r_refs r1) \<noteq> None")
  case True
  then obtain f where "fieldRef (r_refs r1) = Some f" by auto
  with True show ?thesis
    using falling_edge_fires [of r0 r1 f st] by simp
next
  case False
  then have "focus_effect (r_name r1) (case r_smoothScroll r1 of None \<Rightarrow> False | Some b \<Rightarrow> b)
      (r_context r1) (Some (isSubmitting (r_context r0))) (r_refs r1) = []"
    by (auto simp: focus_effect_def)
  with False show ?thesis
    by (simp add: hook_render_fst useFocusInvalidField_fst hook_render_remembered)
qed

lemma state_after_append:
  "state_after st (xs @ ys) = state_after (state_after st xs) ys"
  by (induction xs arbitrary: st) simp_all

lemma hook_after_render_fires_iff:
  "(fst (useFocusInvalidField name sm ctx r
          (snd (useFocusInvalidField name0 sm0 ctx0 r0 st))) \<noteq> []) =
     (isSubmitting ctx0 \<and> \<not> isSubmitting ctx \<and>
      firstError ctx = Some name \<and> fieldRef r \<noteq> None)"
  using render_fires_iff
    [of st "\<lparr>r_name = name0, r_smoothScroll = sm0, r_context = ctx0, r_refs = r0\<rparr>"
        "\<lparr>r_name = name, r_smoothScroll = sm, r_context = ctx, r_refs = r\<rparr>"]
  by (simp add: hook_render_def)

lemma hook_from_mount_fires_iff:
  "(fst (useFocusInvalidField name sm ctx r (state_after mounted pre)) \<noteq> []) =
     (pre \<noteq> [] \<and> isSubmitting (r_context (last pre)) \<and> \<not> isSubmitting ctx \<and>
      firstError ctx = Some name \<and> fieldRef r \<noteq> None)"
proof (cases pre rule: rev_cases)
  case Nil
  then show ?thesis
    using first_render_quiet
      [of "\<lparr>r_name = name, r_smoothScroll = sm, r_context = ctx, r_refs = r\<rparr>"]
    by (simp add: hook_render_def)
next
  case (snoc earlier rd)
  then show ?thesis
    using hook_after_render_fires_iff
      [of name sm ctx r "r_name rd" "r_smoothScroll rd" "r_context rd" "r_refs rd"
          "state_after mounted earlier"]
    by (simp add: state_after_append hook_render_def)
qed

text \<open>
  C1. In every render of the focus hook, the focus-and-scroll helper is invoked if and only if
  the \<^verbatim>\<open>isSubmitting\<close> of the previous render was \<^verbatim>\<open>true\<close>, the current \<^verbatim>\<open>isSubmitting\<close> is \<^verbatim>\<open>false\<close>,
  the first key of the current error object equals the hook's field name, and the focus-target
  ref is not \<^verbatim>\<open>null\<close>.  This holds for a render that follows any render from any hook state, and
  for the render that follows any history \<open>pre\<close> of renders since the component mounted: the
  first render has no previous one and makes no call.  In particular, when the first error key
  differs from the field name, no call is made.
\<close>

theorem hook_fires_iff_previous_render:
  "(fst (useFocusInvalidField name sm ctx r
          (snd (useFocusInvalidField name0 sm0 ctx0 r0 st))) \<noteq> []) =
     (isSubmitting ctx0 \<and> \<not> isSubmitting ctx \<and>
      firstError ctx = Some name \<and> fieldRef r \<noteq> None) \<and>
   (fst (useFocusInvalidField name sm ctx r (state_after mounted pre)) \<noteq> []) =
     (pre \<noteq> [] \<and> isSubmitting (r_context (last pre)) \<and> \<not> isSubmitting ctx \<and>
      firstError ctx = Some name \<and> fieldRef r \<noteq> None)"
  by (simp only: hook_after_render_fires_iff hook_from_mount_fires_iff simp_thms)

theorem hook_fires_iff_previous_render_witness:
  "fst (useFocusInvalidField ''email'' None ex_failed ex_refs
         (state_after mounted [ex_render ex_submitting])) = [HelperCall 1 2 False] \<and>
   fst (useFocusInvalidField ''age'' None ex_failed ex_refs
         (state_after mounted [ex_render ex_submitting])) = [] \<and>
   fst (useFocusInvalidField ''email'' None ex_failed ex_unmounted
         (state_after mounted [ex_render ex_submitting])) = [] \<and>
   fst (useFocusInvalidField ''email'' None ex_submitting ex_refs
         (state_after mounted [ex_render ex_submitting])) = [] \<and>
   fst (useFocusInvalidField ''email'' None ex_revalidated ex_refs
         (state_after mounted [ex_render ex_submitting, ex_render ex_failed])) = [] \<and>
   fst (useFocusInvalidField ''email'' None ex_failed ex_refs (state_after mounted [])) = []"
proof -
  have fired: "fst (useFocusInvalidField ''email'' None ex_failed ex_refs
         (state_after mounted [ex_render ex_submitting])) = [HelperCall 1 2 False]"
    by (simp add: useFocusInvalidField_fst focus_effect_Some [of _ 1] hook_render_def
        useFocusInvalidField_snd deps_changed_def mounted_def ex_render_def ex_refs_def
        ex_submitting_def ex_failed_def firstError_def)
  have other_field: "fst (useFocusInvalidField ''age'' None ex_failed ex_refs
         (state_after mounted [ex_render ex_submitting])) = []"
    using hook_fires_iff_previous_render
      [of "''age''" None ex_failed ex_refs "''email''" None ex_submitting ex_refs mounted
          "[ex_render ex_submitting]"]
    by (simp add: ex_failed_def firstError_def)
  have unmounted: "fst (useFocusInvalidField ''email'' None ex_failed ex_unmounted
         (state_after mounted [ex_render ex_submitting])) = []"
    using hook_fires_iff_previous_render
      [of "''email''" None ex_failed ex_unmounted "''email''" None ex_submitting ex_refs mounted
          "[ex_render ex_submitting]"]
    by (simp add: ex_unmounted_def)
  have still_submitting: "fst (useFocusInvalidField ''email'' None ex_submitting ex_refs
         (state_after mounted [ex_render ex_submitting])) = []"
    using hook_fires_iff_previous_render
      [of "''email''" None ex_submitting ex_refs "''email''" None ex_submitting ex_refs mounted
          "[ex_render ex_submitting]"]
    by (simp add: ex_submitting_def)
  have later: "fst (useFocusInvalidField ''email'' None ex_revalidated ex_refs
         (state_after mounted [ex_render ex_submitting, ex_render ex_failed])) = []"
    using hook_fires_iff_previous_render
      [of "''email''" None ex_revalidated ex_refs "''email''" None ex_submitting ex_refs mounted
          "[ex_render ex_submitting, ex_render ex_failed]"]
    by (simp add: ex_render_def ex_failed_def)
  have first: "fst (useFocusInvalidField ''email'' None ex_failed ex_refs
         (state_after mounted [])) = []"
    using hook_fires_iff_previous_render
      [of "''email''" None ex_failed ex_refs "''email''" None ex_submitting ex_refs mounted "[]"]
    by simp
  from fired other_field unmounted still_submitting later first show ?thesis
    by (simp only: simp_thms)
qed

section \<open>One helper call per submission that fails\<close>

text \<open>While the submitting flag stays \<^verbatim>\<open>false\<close>, no render after the first makes a call.\<close>

lemma calls_of_quiet:
  "remembered st = Some False \<Longrightarrow> \<forall>rd\<in>set rds. \<not> isSubmitting (r_context rd) \<Longrightarrow>
   calls_of st rds = replicate (length rds) []"
proof (induction rds arbitrary: st)
  case Nil
  then show ?case by simp
next
  case (Cons rd rds)
  have quiet: "fst (hook_render st rd) = []"
    using Cons.prems(1)
    by (simp add: hook_render_fst useFocusInvalidField_fst focus_effect_def)
  have next_state: "remembered (snd (hook_render st rd)) = Some False"
    using Cons.prems(2) by (simp add: hook_render_remembered)
  from Cons.IH [OF next_state] Cons.prems(2) quiet show ?case by simp
qed

lemma perform_counts:
  "length (filter is_focus (perform b c)) = 1"
  "length (filter is_scroll (perform b c)) \<le> 1"
  by (cases c; simp add: focusAndScrollIntoViewIfRequired_def)+

lemma concat_replicate_Nil: "concat (replicate n []) = []"
  by (induction n) simp_all

text \<open>
  C2. For every submission-completion transition that qualifies (a render \<open>r0\<close> with
  \<^verbatim>\<open>isSubmitting\<close> true, followed by a render \<open>r1\<close> with \<^verbatim>\<open>isSubmitting\<close> false, the watched field
  as first error and a mounted focus target), the hook invokes the helper exactly once, in
  \<open>r1\<close>, and in none of the re-renders \<open>rds\<close> that follow while \<^verbatim>\<open>isSubmitting\<close> stays false,
  whatever else changes in them.  The helper's one invocation moves focus exactly once and
  scrolls at most once.  The hook state \<open>st\<close> before \<open>r0\<close> is arbitrary.
\<close>

theorem focus_once_per_transition:
  assumes "isSubmitting (r_context r0)"
    and "\<not> isSubmitting (r_context r1)"
    and "firstError (r_context r1) = Some (r_name r1)"
    and "fieldRef (r_refs r1) = Some f"
    and "\<forall>rd\<in>set rds. \<not> isSubmitting (r_context rd)"
  shows "calls_of (state_after st [r0]) (r1 # rds) =
           [HelperCall f (case containerElementRef (r_refs r1) of None \<Rightarrow> f | Some c \<Rightarrow> c)
              (case r_smoothScroll r1 of None \<Rightarrow> False | Some b \<Rightarrow> b)]
           # replicate (length rds) [] \<and>
         length (filter is_focus
           (concat (map (perform b) (concat (calls_of (state_after st [r0]) (r1 # rds)))))) = 1 \<and>
         length (filter is_scroll
           (concat (map (perform b) (concat (calls_of (state_after st [r0]) (r1 # rds)))))) \<le> 1"
proof -
  let ?s0 = "snd (hook_render st r0)"
  let ?call = "HelperCall f (case containerElementRef (r_refs r1) of None \<Rightarrow> f | Some c \<Rightarrow> c)
              (case r_smoothScroll r1 of None \<Rightarrow> False | Some b \<Rightarrow> b)"
  have first: "fst (hook_render ?s0 r1) = [?call]"
    using assms(1-4) by (rule falling_edge_fires)
  have "remembered (snd (hook_render ?s0 r1)) = Some False"
    using assms(2) by (simp add: hook_render_remembered)
  then have rest: "calls_of (snd (hook_render ?s0 r1)) rds = replicate (length rds) []"
    using assms(5) by (rule calls_of_quiet)
  have calls: "calls_of (state_after st [r0]) (r1 # rds) = [?call] # replicate (length rds) []"
    using first rest by simp
  have flat: "concat (calls_of (state_after st [r0]) (r1 # rds)) = [?call]"
    unfolding calls by (simp add: concat_replicate_Nil)
  show ?thesis
    unfolding flat using calls perform_counts [of b ?call] by simp
qed

theorem focus_once_per_transition_witness:
  "isSubmitting (r_context (ex_render ex_submitting)) \<and>
   \<not> isSubmitting (r_context (ex_render ex_failed)) \<and>
   firstError (r_context (ex_render ex_failed)) = Some (r_name (ex_render ex_failed)) \<and>
   fieldRef (r_refs (ex_render ex_failed)) = Some 1 \<and>
   calls_of (state_after mounted [ex_render ex_submitting])
     [ex_render ex_failed, ex_render ex_revalidated, ex_render ex_failed] =
     [[HelperCall 1 2 False], [], []] \<and>
   concat (map (perform ex_browser) (concat (calls_of (state_after mounted [ex_render ex_submitting])
     [ex_render ex_failed, ex_render ex_revalidated, ex_render ex_failed]))) =
     [Focus 1, ScrollIntoView 2 False]"
proof -
  have h: "isSubmitting (r_context (ex_render ex_submitting))"
    "\<not> isSubmitting (r_context (ex_render ex_failed))"
    "firstError (r_context (ex_render ex_failed)) = Some (r_name (ex_render ex_failed))"
    "fieldRef (r_refs (ex_render ex_failed)) = Some 1"
    "\<forall>rd\<in>set [ex_render ex_revalidated, ex_render ex_failed]. \<not> isSubmitting (r_context rd)"
    by (simp_all add: ex_render_def ex_submitting_def ex_failed_def ex_revalidated_def
        ex_refs_def firstError_def)
  have calls: "calls_of (state_after mounted [ex_render ex_submitting])
     [ex_render ex_failed, ex_render ex_revalidated, ex_render ex_failed] =
     [[HelperCall 1 2 False], [], []]"
    using focus_once_per_transition [OF h, of mounted ex_browser]
    by (simp add: ex_render_def ex_refs_def)
  show ?thesis
    using h(1-4) unfolding calls
    by (simp add: focusAndScrollIntoViewIfRequired_def ex_browser_def)
qed

section \<open>An absent focus target\<close>

text \<open>
  C3. If the focus-target ref is \<^verbatim>\<open>null\<close> when the hook renders, then whatever the other
  conditions are (also at a transition that would otherwise qualify) the hook invokes the helper
  not at all, so that no focus and no scroll action is performed, and it completes the render
  as it does with a mounted target: it returns the same state.  The hook is a total function
  with no error result, as its source has no statement that throws.
\<close>

theorem absent_target_is_silent:
  assumes "fieldRef r = None"
  shows "fst (useFocusInvalidField name sm ctx r st) = [] \<and>
         concat (map (perform b) (fst (useFocusInvalidField name sm ctx r st))) = [] \<and>
         snd (useFocusInvalidField name sm ctx r st) =
           snd (useFocusInvalidField name sm ctx (r\<lparr>fieldRef := Some e\<rparr>) st)"
  using assms by (simp add: useFocusInvalidField_fst useFocusInvalidField_snd focus_effect_None)

theorem absent_target_is_silent_witness:
  "fieldRef ex_unmounted = None \<and>
   remembered (state_after mounted [ex_render ex_submitting]) = Some True \<and>
   \<not> isSubmitting ex_failed \<and> firstError ex_failed = Some ''email'' \<and>
   fst (useFocusInvalidField ''email'' None ex_failed ex_unmounted
          (state_after mounted [ex_render ex_submitting])) = [] \<and>
   remembered (snd (useFocusInvalidField ''email'' None ex_failed ex_unmounted
          (state_after mounted [ex_render ex_submitting]))) = Some False"
proof -
  have h: "fieldRef ex_unmounted = None"
    by (simp add: ex_unmounted_def)
  show ?thesis
    using h absent_target_is_silent [OF h, of "''email''" None ex_failed
        "state_after mounted [ex_render ex_submitting]" ex_browser 1]
    by (simp add: hook_render_remembered useFocusInvalidField_snd ex_render_def
        ex_submitting_def ex_failed_def firstError_def)
qed

section \<open>The arguments of the helper\<close>

text \<open>
  C4. In every call the hook makes, the focus argument is the element under the focus-target
  ref, and the scroll argument is the element under the container ref if that ref is not
  \<^verbatim>\<open>null\<close>, and the focus target otherwise.
\<close>

theorem helper_arguments:
  assumes "c \<in> set (fst (useFocusInvalidField name sm ctx r st))"
  shows "fieldRef r = Some (focus_arg c) \<and>
         scroll_arg c = (case containerElementRef r of None \<Rightarrow> focus_arg c | Some k \<Rightarrow> k)"
  using hook_member [OF assms] by simp

theorem helper_arguments_witness:
  "HelperCall 1 1 False \<in> set (fst (useFocusInvalidField ''email'' None ex_failed
       (ex_refs\<lparr>containerElementRef := None\<rparr>) (state_after mounted [ex_render ex_submitting]))) \<and>
   fieldRef (ex_refs\<lparr>containerElementRef := None\<rparr>) = Some (focus_arg (HelperCall 1 1 False)) \<and>
   scroll_arg (HelperCall 1 1 False) = 1"
proof -
  have calls: "fst (useFocusInvalidField ''email'' None ex_failed
       (ex_refs\<lparr>containerElementRef := None\<rparr>) (state_after mounted [ex_render ex_submitting])) =
       [HelperCall 1 1 False]"
    by (simp add: useFocusInvalidField_fst focus_effect_Some [of _ 1] hook_render_def
        useFocusInvalidField_snd deps_changed_def mounted_def ex_render_def ex_refs_def
        ex_submitting_def ex_failed_def firstError_def)
  then have h: "HelperCall 1 1 False \<in> set (fst (useFocusInvalidField ''email'' None ex_failed
       (ex_refs\<lparr>containerElementRef := None\<rparr>) (state_after mounted [ex_render ex_submitting])))"
    by simp
  show ?thesis
    using h helper_arguments [OF h] by simp
qed

section \<open>The rendered field element\<close>

lemma elements_label_child [simp]: "elements (label_child l) = []"
  by (cases l) simp_all

lemma BootstrapErrorMessage_simps [simp]:
  "is_error_message (BootstrapErrorMessage n i)"
  "BootstrapErrorMessage n i \<noteq> Nothing"
  "elements (BootstrapErrorMessage n i) = []"
  "node_type (BootstrapErrorMessage n i) = ''ErrorMessage''"
  by (simp_all add: BootstrapErrorMessage_def)

lemma select_label_simps [simp]:
  "\<not> is_error_message (select_label p)"
  "select_label p \<noteq> Nothing"
  "node_type (select_label p) = ''label''"
  "ref_of (select_label p) = None"
  "elements (select_label p) = [select_label p]"
  by (simp_all add: select_label_def)

lemma spread_field_className: "spread_field f ''className'' = None"
  by (simp add: spread_field_def map_add_def split: option.splits)

lemma input_className:
  "ref_attr Ref_fieldRef (view (BootstrapInput p c r st)) ''className'' =
     Some (case spread_opt (inputProps p) ''className'' of
             None \<Rightarrow>
               JString ((if isCheckboxOrRadio p then ''form-check-input'' else ''form-control'')
                        @ validationClass p)
           | Some v \<Rightarrow> v)"
  by (simp add: BootstrapInput_def ref_attr_def element_with_ref_def get_prop_def map_add_def
      spread_field_className Let_def split: prod.splits option.splits)

lemma select_className:
  "ref_attr Ref_fieldRef (view (BootstrapSelect p c r st)) ''className'' =
     Some (case spread_opt (inputProps p) ''className'' of
             None \<Rightarrow> JString (''form-select'' @ validationClass p)
           | Some v \<Rightarrow> v)"
  by (simp add: BootstrapSelect_def ref_attr_def element_with_ref_def get_prop_def map_add_def
      spread_field_className Let_def split: prod.splits option.splits)

lemma validationClass_cases:
  "validationClass p =
     (if form_submitCount (form (fieldProps p)) = 0 then []
      else if meta_error (meta (fieldProps p)) \<noteq> None then '' is-invalid''
      else '' is-valid'')"
  by (simp add: validationClass_def isSubmitted_def isInvalid_def)

text \<open>
  C5, as the code has it.  The class of the rendered input or select element is the structural
  class (\<^verbatim>\<open>form-check-input\<close> or \<^verbatim>\<open>form-control\<close> for an input, \<^verbatim>\<open>form-select\<close> for a select)
  followed by nothing when \<^verbatim>\<open>submitCount\<close> is 0, by \<^verbatim>\<open>is-invalid\<close> when \<^verbatim>\<open>submitCount > 0\<close> and an
  error is present, and by \<^verbatim>\<open>is-valid\<close> when \<^verbatim>\<open>submitCount > 0\<close> and no error is present, in
  every render whose \<^verbatim>\<open>inputProps\<close> has no \<^verbatim>\<open>className\<close> key.  When \<^verbatim>\<open>inputProps\<close> has one, its
  value is the class of the element, whatever the submit count and the error are.
\<close>

theorem validation_class_unless_overridden:
  "ref_attr Ref_fieldRef (view (BootstrapInput p c r st)) ''className'' =
     Some (case spread_opt (inputProps p) ''className'' of
             None \<Rightarrow>
               JString ((if isCheckboxOrRadio p then ''form-check-input'' else ''form-control'')
                        @ (if form_submitCount (form (fieldProps p)) = 0 then []
                           else if meta_error (meta (fieldProps p)) \<noteq> None then '' is-invalid''
                           else '' is-valid''))
           | Some v \<Rightarrow> v) \<and>
   ref_attr Ref_fieldRef (view (BootstrapSelect q c' r' st')) ''className'' =
     Some (case spread_opt (inputProps q) ''className'' of
             None \<Rightarrow>
               JString (''form-select''
                        @ (if form_submitCount (form (fieldProps q)) = 0 then []
                           else if meta_error (meta (fieldProps q)) \<noteq> None then '' is-invalid''
                           else '' is-valid''))
           | Some v \<Rightarrow> v)"
  by (simp only: input_className select_className validationClass_cases simp_thms)

theorem validation_class_unless_overridden_witness:
  "ref_attr Ref_fieldRef (view (BootstrapInput ex_input ex_failed ex_refs mounted)) ''className'' =
     Some (JString ''form-control is-invalid'') \<and>
   ref_attr Ref_fieldRef (view (BootstrapSelect ex_select ex_failed ex_refs mounted)) ''className'' =
     Some (JString ''form-select is-invalid'')"
  using validation_class_unless_overridden
    [of ex_input ex_failed ex_refs mounted ex_select ex_failed ex_refs mounted]
  by (simp add: ex_input_def ex_select_def ex_field_props_def spread_opt_def
      isCheckboxOrRadio_def get_prop_opt_def)

text \<open>
  The claim as stated fails: after a submission (\<^verbatim>\<open>submitCount\<close> 1) with an error present, an
  input rendered with \<^verbatim>\<open>inputProps = {className: "custom"}\<close> has the class \<^verbatim>\<open>custom\<close>, with no
  \<^verbatim>\<open>is-invalid\<close>.
\<close>

theorem validation_class_overridden:
  "form_submitCount (form (fieldProps ex_input_custom)) = 1 \<and>
   meta_error (meta (fieldProps ex_input_custom)) = Some ''Required'' \<and>
   ref_attr Ref_fieldRef (view (BootstrapInput ex_input_custom ex_failed ex_refs mounted))
     ''className'' = Some (JString ''custom'')"
  by (simp add: input_className ex_input_custom_def ex_input_def ex_field_props_def
      spread_opt_def)

section \<open>ARIA attributes\<close>

text \<open>
  C6. In every render of the input and of the select, \<^verbatim>\<open>aria-invalid\<close> is \<^verbatim>\<open>true\<close> if an error is
  present and \<^verbatim>\<open>false\<close> if not, whatever the submit count, and \<^verbatim>\<open>aria-describedby\<close> is the id
  followed by \<^verbatim>\<open>-feedback\<close> if an error is present and \<^verbatim>\<open>undefined\<close> if not.
\<close>

theorem aria_attributes:
  "ref_attr Ref_fieldRef (view (BootstrapInput p c r st)) ''aria-invalid'' =
     Some (JBool (meta_error (meta (fieldProps p)) \<noteq> None)) \<and>
   ref_attr Ref_fieldRef (view (BootstrapInput p c r st)) ''aria-describedby'' =
     Some (if meta_error (meta (fieldProps p)) \<noteq> None
           then JString (field_id p @ ''-feedback'') else JUndefined) \<and>
   ref_attr Ref_fieldRef (view (BootstrapSelect q c' r' st')) ''aria-invalid'' =
     Some (JBool (meta_error (meta (fieldProps q)) \<noteq> None)) \<and>
   ref_attr Ref_fieldRef (view (BootstrapSelect q c' r' st')) ''aria-describedby'' =
     Some (if meta_error (meta (fieldProps q)) \<noteq> None
           then JString (field_id q @ ''-feedback'') else JUndefined)"
  by (simp add: BootstrapInput_def BootstrapSelect_def ref_attr_def element_with_ref_def
      get_prop_def invalidFeedbackId_def isInvalid_def Let_def split: prod.splits)

theorem aria_attributes_witness:
  "ref_attr Ref_fieldRef (view (BootstrapInput ex_input ex_failed ex_refs mounted)) ''aria-invalid'' =
     Some (JBool True) \<and>
   ref_attr Ref_fieldRef (view (BootstrapInput ex_input ex_failed ex_refs mounted))
     ''aria-describedby'' = Some (JString ''email-feedback'') \<and>
   ref_attr Ref_fieldRef (view (BootstrapSelect ex_select ex_failed ex_refs mounted))
     ''aria-invalid'' = Some (JBool True) \<and>
   ref_attr Ref_fieldRef (view (BootstrapSelect ex_select ex_failed ex_refs mounted))
     ''aria-describedby'' = Some (JString ''email-feedback'')"
  using aria_attributes [of ex_input ex_failed ex_refs mounted ex_select ex_failed ex_refs mounted]
  by (simp add: ex_input_def ex_select_def ex_field_props_def field_id_def get_prop_opt_def)

section \<open>The floating label of the select\<close>

text \<open>
  C8. In every render of the select: with the floating-label option on, the rendered children
  of the container are the select and then the label, and the container's class is
  \<^verbatim>\<open>form-floating\<close>; with the option off (or not given), they are the label and then the select,
  and the container has no class.  In both cases the error message follows when an error is
  present, and the one label is the label bound to the field's id.
\<close>

theorem floating_label_order:
  "map node_type (rendered_children (view (BootstrapSelect p c r st))) =
     (if isFloatingLabel p then [''select'', ''label''] else [''label'', ''select''])
     @ (if isInvalid p then [''ErrorMessage''] else []) \<and>
   filter (\<lambda>n. node_type n = ''label'') (rendered_children (view (BootstrapSelect p c r st))) =
     [select_label p] \<and>
   get_prop (attrs_of (select_label p)) ''htmlFor'' = JString (field_id p) \<and>
   get_prop (attrs_of (view (BootstrapSelect p c r st))) ''className'' =
     (if isFloatingLabel p then JString ''form-floating'' else JUndefined)"
  by (simp add: BootstrapSelect_def rendered_children_def get_prop_def Let_def
      split: prod.splits)
    (simp add: select_label_def)

theorem floating_label_order_witness:
  "map node_type (rendered_children (view (BootstrapSelect ex_select ex_failed ex_refs mounted))) =
     [''select'', ''label'', ''ErrorMessage''] \<and>
   get_prop (attrs_of (view (BootstrapSelect ex_select ex_failed ex_refs mounted))) ''className'' =
     JString ''form-floating'' \<and>
   map node_type (rendered_children (view (BootstrapSelect
       (ex_select\<lparr>bootstrapOptions := None\<rparr>) ex_failed ex_refs mounted))) =
     [''label'', ''select'', ''ErrorMessage''] \<and>
   get_prop (attrs_of (view (BootstrapSelect
       (ex_select\<lparr>bootstrapOptions := None\<rparr>) ex_failed ex_refs mounted))) ''className'' =
     JUndefined"
  using floating_label_order [of ex_select ex_failed ex_refs mounted]
    floating_label_order [of "ex_select\<lparr>bootstrapOptions := None\<rparr>" ex_failed ex_refs mounted]
  by (simp add: ex_select_def ex_field_props_def isFloatingLabel_def isInvalid_def)

section \<open>Mounting the error message\<close>

text \<open>
  C9. The select renders its error message only when an error is present; the input renders
  its error message in every render.
\<close>

theorem error_message_mounting:
  "filter is_error_message (rendered_children (view (BootstrapSelect q c' r' st'))) =
     (if isInvalid q
      then [BootstrapErrorMessage (field_name (field (fieldProps q))) (invalidFeedbackId q)]
      else []) \<and>
   filter is_error_message (rendered_children (view (BootstrapInput p c r st))) =
     [BootstrapErrorMessage (field_name (field (fieldProps p))) (invalidFeedbackId p)]"
  by (simp add: BootstrapSelect_def BootstrapInput_def rendered_children_def Let_def
      split: prod.splits)

theorem error_message_mounting_witness:
  "filter is_error_message (rendered_children (view (BootstrapSelect
       (ex_select\<lparr>fieldProps := ex_field_props\<lparr>meta := \<lparr>meta_error = None\<rparr>\<rparr>\<rparr>)
       ex_failed ex_refs mounted))) = [] \<and>
   filter is_error_message (rendered_children (view (BootstrapInput
       (ex_input\<lparr>fieldProps := ex_field_props\<lparr>meta := \<lparr>meta_error = None\<rparr>\<rparr>\<rparr>)
       ex_failed ex_refs mounted))) = [BootstrapErrorMessage ''email'' ''email-feedback'']"
  using error_message_mounting
    [of "ex_select\<lparr>fieldProps := ex_field_props\<lparr>meta := \<lparr>meta_error = None\<rparr>\<rparr>\<rparr>"
        ex_failed ex_refs mounted
        "ex_input\<lparr>fieldProps := ex_field_props\<lparr>meta := \<lparr>meta_error = None\<rparr>\<rparr>\<rparr>"
        ex_failed ex_refs mounted]
  by (simp add: ex_select_def ex_input_def ex_field_props_def isInvalid_def
      invalidFeedbackId_def field_id_def get_prop_opt_def)

section \<open>Smooth scrolling is never requested by the components\<close>

lemma component_calls:
  "effect_calls (BootstrapInput p c r st) =
     fst (useFocusInvalidField (field_name (field (fieldProps p))) None c r st)"
  "effect_calls (BootstrapSelect q c r st) =
     fst (useFocusInvalidField (field_name (field (fieldProps q))) None c r st)"
  by (simp_all add: BootstrapInput_def BootstrapSelect_def Let_def split: prod.splits)

text \<open>
  C10. Both components call the hook with the field name only, so its second parameter takes
  its default \<^verbatim>\<open>false\<close>: in every render of the input and of the select, every helper call made
  has the smooth-scroll argument \<^verbatim>\<open>false\<close>.
\<close>

theorem components_never_smooth:
  "(\<forall>k\<in>set (effect_calls (BootstrapInput p c r st)). smooth_arg k = False) \<and>
   (\<forall>k\<in>set (effect_calls (BootstrapSelect q c' r' st')). smooth_arg k = False)"
  using hook_member [where sm = None] by (simp add: component_calls)

theorem components_never_smooth_witness:
  "effect_calls (BootstrapInput ex_input ex_failed ex_refs
      (state_after mounted [ex_render ex_submitting])) = [HelperCall 1 2 False] \<and>
   effect_calls (BootstrapSelect ex_select ex_failed ex_refs
      (state_after mounted [ex_render ex_submitting])) = [HelperCall 1 2 False] \<and>
   smooth_arg (HelperCall 1 2 False) = False"
proof -
  have calls: "fst (useFocusInvalidField ''email'' None ex_failed ex_refs
       (state_after mounted [ex_render ex_submitting])) = [HelperCall 1 2 False]"
    by (simp add: useFocusInvalidField_fst focus_effect_Some [of _ 1] hook_render_def
        useFocusInvalidField_snd deps_changed_def mounted_def ex_render_def ex_refs_def
        ex_submitting_def ex_failed_def firstError_def)
  have input: "effect_calls (BootstrapInput ex_input ex_failed ex_refs
      (state_after mounted [ex_render ex_submitting])) = [HelperCall 1 2 False]"
    using calls by (simp add: component_calls ex_input_def ex_field_props_def)
  have select: "effect_calls (BootstrapSelect ex_select ex_failed ex_refs
      (state_after mounted [ex_render ex_submitting])) = [HelperCall 1 2 False]"
    using calls by (simp add: component_calls ex_select_def ex_field_props_def)
  from components_never_smooth
    [of ex_input ex_failed ex_refs "state_after mounted [ex_render ex_submitting]"
      ex_select ex_failed ex_refs "state_after mounted [ex_render ex_submitting]"]
  have "smooth_arg (HelperCall 1 2 False) = False"
    unfolding input select by simp
  with input select show ?thesis by simp
qed

section \<open>The option tree is rendered in pre-order, each node once\<close>

lemma elements_text_child [simp]: "elements (text_child l) = []"
  by (simp add: text_child_def split: option.splits)

lemma elements_render_both:
  "elements (render_option n) = map render_option (preorder n) \<and>
   concat (map (elements \<circ> render_option) ns) = map render_option (preorder_all ns)"
  by (rule preorder_preorder_all.induct
        [of "\<lambda>ns. concat (map (elements \<circ> render_option) ns) =
                    map render_option (preorder_all ns)"
            "\<lambda>n. elements (render_option n) = map render_option (preorder n)"])
     simp_all

lemma elements_RenderOptions:
  "elements (RenderOptions os) = map render_option (preorder_all os)"
  by (simp add: RenderOptions_def elements_render_both)

lemma node_type_render_option:
  "node_type (render_option n) = (if isSelectOption n then ''option'' else ''optgroup'')"
  by (cases n) simp

lemma rendered_options:
  "filter (\<lambda>e. node_type e = ''option'') (map render_option ns) =
     map render_option (filter isSelectOption ns)"
  by (induction ns) (simp_all add: node_type_render_option)

text \<open>The child of a rendered group is \<^verbatim>\<open>RenderOptions\<close> of the group's \<^verbatim>\<open>options\<close>.\<close>

lemma render_option_group:
  "\<not> isSelectOption n \<Longrightarrow> children_of (render_option n) = [RenderOptions (opt_options n)]"
  by (cases n) (simp add: RenderOptions_def)

lemma shift_eq_Nil [simp]: "(shift p = []) = (p = [])" "([] = shift p) = (p = [])"
  by (cases p; simp)+

lemma shift_eq_Cons:
  "(shift q' = i # q) = (\<exists>j. i = Suc j \<and> q' = j # q)"
  "(i # q = shift q') = (\<exists>j. i = Suc j \<and> q' = j # q)"
  by (cases q'; auto)+

lemma Nil_notin_option_paths: "[] \<notin> set (option_paths ns)"
  by (induction ns) auto

lemma node_at_Cons_0:
  "node_at (n # ns) (0 # p) = (case p of [] \<Rightarrow> Some n | _ \<Rightarrow> node_at (opt_options n) p)"
  by (cases p) simp_all

lemma node_at_shift: "node_at (n # ns) (shift p) = node_at ns p"
  by (induction ns p rule: node_at.induct) simp_all

lemma reachable_shift: "reachable (n # ns) (shift p) = reachable ns p"
  by (induction ns p rule: reachable.induct) simp_all

lemma map_case_nonempty:
  "[] \<notin> set ps \<Longrightarrow> map (\<lambda>p. case p of [] \<Rightarrow> a | _ # _ \<Rightarrow> f p) ps = map f ps"
  by (induction ps) (auto split: list.splits)

text \<open>The positions, read in the tree, are the nodes of the pre-order.\<close>

lemma node_at_paths_both:
  "map (\<lambda>p. case p of [] \<Rightarrow> Some n | _ \<Rightarrow> node_at (opt_options n) p) (below n) =
     map Some (preorder n) \<and>
   map (node_at ns) (option_paths ns) = map Some (preorder_all ns)"
  by (rule preorder_preorder_all.induct
        [of "\<lambda>ns. map (node_at ns) (option_paths ns) = map Some (preorder_all ns)"
            "\<lambda>n. map (\<lambda>p. case p of [] \<Rightarrow> Some n | _ \<Rightarrow> node_at (opt_options n) p) (below n) =
                   map Some (preorder n)"])
     (simp_all add: o_def node_at_Cons_0 node_at_shift Nil_notin_option_paths map_case_nonempty)

lemma node_at_option_paths:
  "map (node_at os) (option_paths os) = map Some (preorder_all os)"
  by (simp add: node_at_paths_both)

text \<open>The positions are exactly the nodes of the tree.\<close>

lemma reachable_Cons_0:
  "reachable (n # ns) (0 # q) =
     (q = [] \<or> \<not> isSelectOption n \<and> reachable (opt_options n) q)"
  by (cases q) simp_all

lemma reachable_Cons:
  "reachable (n # ns) p \<longleftrightarrow>
     (\<exists>q. p = 0 # q \<and> (q = [] \<or> \<not> isSelectOption n \<and> reachable (opt_options n) q)) \<or>
     (\<exists>q. p = shift q \<and> reachable ns q)"
proof (cases p)
  case Nil
  then show ?thesis by simp
next
  case (Cons i q)
  show ?thesis
  proof (cases i)
    case 0
    with Cons show ?thesis
      by (simp add: reachable_Cons_0 shift_eq_Cons)
  next
    case (Suc j)
    with Cons reachable_shift [of n ns "j # q"] show ?thesis
      by (simp add: shift_eq_Cons)
  qed
qed

lemma paths_reachable_both:
  "(\<forall>p. p \<in> set (below n) \<longleftrightarrow>
        p = [] \<or> (\<not> isSelectOption n \<and> reachable (opt_options n) p)) \<and>
   (\<forall>p. p \<in> set (option_paths ns) \<longleftrightarrow> reachable ns p)"
proof (rule preorder_preorder_all.induct
        [of "\<lambda>ns. \<forall>p. p \<in> set (option_paths ns) \<longleftrightarrow> reachable ns p"
            "\<lambda>n. \<forall>p. p \<in> set (below n) \<longleftrightarrow>
                    p = [] \<or> (\<not> isSelectOption n \<and> reachable (opt_options n) p)"])
  fix v l d k os
  assume "\<forall>p. p \<in> set (option_paths os) \<longleftrightarrow> reachable os p"
  then show "\<forall>p. p \<in> set (below (OptionNode v l d k os)) \<longleftrightarrow>
      p = [] \<or> (\<not> isSelectOption (OptionNode v l d k os) \<and>
                reachable (opt_options (OptionNode v l d k os)) p)"
    by auto
next
  show "\<forall>p. p \<in> set (option_paths []) \<longleftrightarrow> reachable [] p"
  proof
    fix p show "p \<in> set (option_paths []) \<longleftrightarrow> reachable [] p"
      by (induction "[] :: SelectOptionOrGroup list" p rule: reachable.induct) simp_all
  qed
next
  fix n ns
  assume n: "\<forall>p. p \<in> set (below n) \<longleftrightarrow>
      p = [] \<or> (\<not> isSelectOption n \<and> reachable (opt_options n) p)"
    and ns: "\<forall>p. p \<in> set (option_paths ns) \<longleftrightarrow> reachable ns p"
  show "\<forall>p. p \<in> set (option_paths (n # ns)) \<longleftrightarrow> reachable (n # ns) p"
  proof
    fix p
    have "p \<in> set (option_paths (n # ns)) \<longleftrightarrow>
        (\<exists>q. p = 0 # q \<and> q \<in> set (below n)) \<or>
        (\<exists>q. p = shift q \<and> q \<in> set (option_paths ns))"
      by auto
    also have "\<dots> \<longleftrightarrow> reachable (n # ns) p"
      using n ns by (simp add: reachable_Cons)
    finally show "p \<in> set (option_paths (n # ns)) \<longleftrightarrow> reachable (n # ns) p" .
  qed
qed

lemma set_option_paths: "set (option_paths os) = {p. reachable os p}"
  using paths_reachable_both by auto

text \<open>The positions ascend in the lexicographic order: pre-order, array order at each level.\<close>

lemma shift_less:
  "p \<noteq> [] \<Longrightarrow> q \<noteq> [] \<Longrightarrow> p < q \<Longrightarrow> shift p < shift q"
  by (cases p; cases q) auto

lemma first_before_shifted:
  "q \<noteq> [] \<Longrightarrow> 0 # p < shift q"
  by (cases q) auto

lemma sorted_paths_both:
  "sorted_wrt (<) (below n) \<and> sorted_wrt (<) (option_paths ns)"
proof (rule preorder_preorder_all.induct
        [of "\<lambda>ns. sorted_wrt (<) (option_paths ns)" "\<lambda>n. sorted_wrt (<) (below n)"])
  fix v l d k os
  assume "sorted_wrt (<) (option_paths os)"
  moreover have "\<forall>p\<in>set (option_paths os). [] < p"
    using Nil_notin_option_paths [of os] by (metis Nil_less_Cons list.exhaust)
  ultimately show "sorted_wrt (<) (below (OptionNode v l d k os))"
    by simp
next
  show "sorted_wrt (<) (option_paths [])" by simp
next
  fix n ns
  assume n: "sorted_wrt (<) (below n)" and ns: "sorted_wrt (<) (option_paths ns)"
  have first: "sorted_wrt (<) (map ((#) 0) (below n))"
    using n by (simp add: sorted_wrt_map)
  have rest: "sorted_wrt (<) (map shift (option_paths ns))"
  proof (rule sorted_wrt_map_mono [OF ns])
    fix p q
    assume "p \<in> set (option_paths ns)" "q \<in> set (option_paths ns)" "p < q"
    with Nil_notin_option_paths [of ns] show "shift p < shift q"
      by (intro shift_less) auto
  qed
  have across: "\<forall>p\<in>set (map ((#) 0) (below n)). \<forall>q\<in>set (map shift (option_paths ns)). p < q"
  proof (intro ballI)
    fix p q
    assume "p \<in> set (map ((#) 0) (below n))" "q \<in> set (map shift (option_paths ns))"
    then obtain p' q' where "p = 0 # p'" "q = shift q'" "q' \<in> set (option_paths ns)"
      by auto
    with Nil_notin_option_paths [of ns] show "p < q"
      using first_before_shifted [of q' p'] by auto
  qed
  show "sorted_wrt (<) (option_paths (n # ns))"
    using first rest across by (simp add: sorted_wrt_append)
qed

lemma sorted_option_paths: "sorted_wrt (<) (option_paths os)"
  by (simp add: sorted_paths_both)

lemma distinct_option_paths: "distinct (option_paths os)"
  using sorted_option_paths [of os] by (simp add: strict_sorted_iff)

text \<open>
  C7. For every option tree, of any nesting and with any empty groups, the elements that
  \<^verbatim>\<open>RenderOptions\<close> returns are, in document order, the renderings of the tree's nodes in
  depth-first pre-order: the \<open>i\<close>-th element is the rendering of the node at the \<open>i\<close>-th position
  of \<open>option_paths\<close>.  These positions are exactly the nodes of the tree (\<open>reachable\<close>), each
  once, in ascending lexicographic order, which is pre-order with the array order at every
  level.  The \<^verbatim>\<open>option\<close> elements among them are the renderings of the tree's options, one for
  each and in order; a node is rendered as an \<^verbatim>\<open>option\<close> exactly when its value and its label
  are both defined, and as an \<^verbatim>\<open>optgroup\<close> otherwise.  (The tree is the one the classification
  gives: the \<^verbatim>\<open>options\<close> of a node that counts as an option are not nodes of it.)
\<close>

theorem RenderOptions_preorder_once:
  "elements (RenderOptions os) = map render_option (preorder_all os) \<and>
   map (node_at os) (option_paths os) = map Some (preorder_all os) \<and>
   set (option_paths os) = {p. reachable os p} \<and>
   distinct (option_paths os) \<and>
   sorted_wrt (<) (option_paths os) \<and>
   filter (\<lambda>e. node_type e = ''option'') (elements (RenderOptions os)) =
     map render_option (filter isSelectOption (preorder_all os)) \<and>
   (\<forall>n. isSelectOption n = (opt_value n \<noteq> None \<and> opt_label n \<noteq> None)) \<and>
   (\<forall>n. node_type (render_option n) = (if isSelectOption n then ''option'' else ''optgroup''))"
  by (simp only: elements_RenderOptions node_at_option_paths set_option_paths
      distinct_option_paths sorted_option_paths rendered_options node_type_render_option
      simp_thms)
    (auto simp: isSelectOption_def)

theorem RenderOptions_preorder_once_witness:
  "option_paths ex_options =
     [[0], [Suc 0], [Suc 0, 0], [Suc 0, Suc 0], [Suc 0, Suc (Suc 0)], [Suc (Suc 0)]] \<and>
   map node_type (elements (RenderOptions ex_options)) =
     [''option'', ''optgroup'', ''option'', ''optgroup'', ''option'', ''option''] \<and>
   map (\<lambda>e. get_prop (attrs_of e) ''value'')
     (filter (\<lambda>e. node_type e = ''option'') (elements (RenderOptions ex_options))) =
     [JString ''a'', JString ''b'', JString ''c'', JString ''d'']"
proof -
  have pre: "preorder_all ex_options =
     [ex_leaf ''a'',
      OptionNode None (Some ''G'') None None
        [ex_leaf ''b'', OptionNode None None None None [], ex_leaf ''c''],
      ex_leaf ''b'', OptionNode None None None None [], ex_leaf ''c'', ex_leaf ''d'']"
    by (simp add: ex_options_def ex_leaf_def isSelectOption_def)
  have paths: "option_paths ex_options =
     [[0], [Suc 0], [Suc 0, 0], [Suc 0, Suc 0], [Suc 0, Suc (Suc 0)], [Suc (Suc 0)]]"
    by (simp add: ex_options_def ex_leaf_def isSelectOption_def)
  have leaf: "isSelectOption (ex_leaf s)" for s
    by (simp add: ex_leaf_def isSelectOption_def)
  have "elements (RenderOptions ex_options) = map render_option (preorder_all ex_options)"
    and "filter (\<lambda>e. node_type e = ''option'') (elements (RenderOptions ex_options)) =
       map render_option (filter isSelectOption (preorder_all ex_options))"
    using RenderOptions_preorder_once [of ex_options] by blast+
  then show ?thesis
    unfolding pre
    by (simp add: paths leaf isSelectOption_def node_type_render_option)
      (simp add: ex_leaf_def isSelectOption_def get_prop_def js_string_def)
qed

end
